theory Spec2Isabelle
  imports Main
begin

section \<open>Values, exceptions and observable events\<close>

text \<open>
  The configuration is the result of \<^verbatim>\<open>json.load\<close>: a dictionary with string keys whose
  values are JSON values. A dictionary is an association list with distinct keys, read
  with \<open>map_of\<close>. JSON numbers with a fraction (Python floats) are left out of the
  value type.
\<close>

datatype pyval =
    PNone
  | PBool bool
  | PInt int
  | PStr string
  | PList "pyval list"
  | PDict "(string \<times> pyval) list"

text \<open>
  The exceptions the program can meet. All of them are subclasses of Python's
  \<^verbatim>\<open>Exception\<close>: \<open>WebDriverException\<close> stands for selenium's class and its subclasses,
  \<open>OtherException\<close> for every further subclass of \<^verbatim>\<open>Exception\<close> a library call raises
  (\<^verbatim>\<open>OSError\<close>, \<^verbatim>\<open>smtplib.SMTPException\<close>, ...). Interrupts delivered from outside the
  program (\<^verbatim>\<open>KeyboardInterrupt\<close>, \<^verbatim>\<open>SystemExit\<close>), which are not subclasses of
  \<^verbatim>\<open>Exception\<close>, are not part of this model.
\<close>

datatype exn =
    WebDriverException string
  | KeyError string
  | TypeError
  | ValueError
  | AttributeError
  | OverflowError
  | UnicodeEncodeError
  | OtherException string

fun is_WebDriverException :: "exn \<Rightarrow> bool" where
  "is_WebDriverException (WebDriverException _) = True"
| "is_WebDriverException _ = False"

text \<open>The lines the program prints, with the values formatted into them.\<close>

datatype line =
    StartingSingleCheck
  | UrlLine pyval
  | ExpectedTextLine pyval
  | RetryDelayLine int
  | MaxAttemptsLine int
  | AttemptLine int int
  | AliveLine
  | NotAliveLine
  | WebDriverErrorLine exn
  | UnexpectedErrorLine int exn
  | WaitingLine int
  | StillDownLine
  | EmailDisabledLine
  | EmailSentLine
  | EmailFailedLine exn

text \<open>
  The message handed to \<^verbatim>\<open>server.send_message\<close>: its three headers and the two values
  formatted into the fixed body text.
\<close>

record message =
  header_from :: pyval
  header_to :: string
  header_subject :: pyval
  body_url :: pyval
  body_expected_text :: pyval

text \<open>
  What a run does, in order: the lines printed, the calls of the functions of
  \<^verbatim>\<open>main.py\<close>, and the calls into selenium, \<^verbatim>\<open>time\<close> and \<^verbatim>\<open>smtplib\<close>.
\<close>

datatype event =
    Print line
  | Call_create_webdriver
  | Call_is_app_alive pyval pyval
  | Ret_is_app_alive bool
  | Driver_get pyval
  | Driver_page_source
  | Driver_quit
  | Sleep int
  | Call_send_alert_email pyval pyval pyval
  | Smtp_connect pyval pyval
  | Smtp_ehlo
  | Smtp_starttls
  | Smtp_login pyval pyval
  | Smtp_send_message message
  | Smtp_exit

section \<open>Computations: a trace of events, then a value or a raised exception\<close>

type_synonym 'a comp = "event list \<times> (exn + 'a)"

definition ret :: "'a \<Rightarrow> 'a comp" where
  "ret x = ([], Inr x)"

definition raise :: "exn \<Rightarrow> 'a comp" where
  "raise e = ([], Inl e)"

definition emit :: "event \<Rightarrow> unit comp" where
  "emit ev = ([ev], Inr ())"

definition lift :: "exn + 'a \<Rightarrow> 'a comp" where
  "lift r = ([], r)"

definition bind :: "'a comp \<Rightarrow> ('a \<Rightarrow> 'b comp) \<Rightarrow> 'b comp" where
  "bind m f =
     (case m of
        (t, Inl e) \<Rightarrow> (t, Inl e)
      | (t, Inr x) \<Rightarrow> (case f x of (t', r) \<Rightarrow> (t @ t', r)))"

text \<open>\<^verbatim>\<open>try: m  except Exception as e: h e\<close>\<close>

definition try_except :: "'a comp \<Rightarrow> (exn \<Rightarrow> 'a comp) \<Rightarrow> 'a comp" where
  "try_except m h =
     (case m of
        (t, Inl e) \<Rightarrow> (case h e of (t', r) \<Rightarrow> (t @ t', r))
      | (t, Inr x) \<Rightarrow> (t, Inr x))"

text \<open>
  \<^verbatim>\<open>try: m  finally: fin\<close>: the final block runs on every exit of \<open>m\<close>; an exception
  it raises replaces the result of \<open>m\<close>.
\<close>

definition try_finally :: "'a comp \<Rightarrow> unit comp \<Rightarrow> 'a comp" where
  "try_finally m fin =
     (case m of (t, r) \<Rightarrow>
        (case fin of
           (t', Inl e) \<Rightarrow> (t @ t', Inl e)
         | (t', Inr _) \<Rightarrow> (t @ t', r)))"

section \<open>Python built-ins used by the program\<close>

text \<open>\<^verbatim>\<open>d[k]\<close> and \<^verbatim>\<open>d.get(k, default)\<close> on a dictionary.\<close>

definition dict_item :: "(string \<times> pyval) list \<Rightarrow> string \<Rightarrow> exn + pyval" where
  "dict_item d k = (case map_of d k of None \<Rightarrow> Inl (KeyError k) | Some v \<Rightarrow> Inr v)"

definition dict_get :: "(string \<times> pyval) list \<Rightarrow> string \<Rightarrow> pyval \<Rightarrow> pyval" where
  "dict_get d k dflt = (case map_of d k of None \<Rightarrow> dflt | Some v \<Rightarrow> v)"

text \<open>Truth value of a JSON value, as \<^verbatim>\<open>not v\<close> and \<^verbatim>\<open>if v\<close> read it.\<close>

fun truthy :: "pyval \<Rightarrow> bool" where
  "truthy PNone = False"
| "truthy (PBool b) = b"
| "truthy (PInt n) = (n \<noteq> 0)"
| "truthy (PStr s) = (s \<noteq> [])"
| "truthy (PList xs) = (xs \<noteq> [])"
| "truthy (PDict d) = (d \<noteq> [])"

text \<open>
  \<^verbatim>\<open>sub in page\<close> for two strings: \<open>sub\<close> starts at some position of \<open>page\<close>.
  Characters are compared as they are.
\<close>

fun starts_with :: "string \<Rightarrow> string \<Rightarrow> bool" where
  "starts_with s [] = True"
| "starts_with [] (p # ps) = False"
| "starts_with (c # cs) (p # ps) = (c = p \<and> starts_with cs ps)"

fun str_contains :: "string \<Rightarrow> string \<Rightarrow> bool" where
  "str_contains [] sub = (sub = [])"
| "str_contains (c # cs) sub = (starts_with (c # cs) sub \<or> str_contains cs sub)"

text \<open>
  \<^verbatim>\<open>x in page\<close> where \<open>page\<close> is a string: a left operand that is not a string raises
  \<^verbatim>\<open>TypeError\<close>.
\<close>

fun py_in :: "pyval \<Rightarrow> string \<Rightarrow> exn + bool" where
  "py_in (PStr sub) page = Inr (str_contains page sub)"
| "py_in _ page = Inl TypeError"

section \<open>The browser\<close>

text \<open>
  A driver is what \<^verbatim>\<open>webdriver.Chrome\<close> returned: the outcome of \<^verbatim>\<open>driver.get(url)\<close>,
  the value of \<^verbatim>\<open>driver.page_source\<close> after navigating to \<open>url\<close>, and the outcome of
  \<^verbatim>\<open>driver.quit()\<close>.
\<close>

record driver =
  drv_get :: "pyval \<Rightarrow> exn option"
  drv_page_source :: "pyval \<Rightarrow> exn + string"
  drv_quit :: "exn option"

definition driver_get :: "driver \<Rightarrow> pyval \<Rightarrow> unit comp" where
  "driver_get drv url =
     bind (emit (Driver_get url)) (\<lambda>_.
       case drv_get drv url of Some e \<Rightarrow> raise e | None \<Rightarrow> ret ())"

definition driver_page_source :: "driver \<Rightarrow> pyval \<Rightarrow> string comp" where
  "driver_page_source drv url =
     bind (emit Driver_page_source) (\<lambda>_. lift (drv_page_source drv url))"

definition driver_quit :: "driver \<Rightarrow> unit comp" where
  "driver_quit drv =
     bind (emit Driver_quit) (\<lambda>_.
       case drv_quit drv of Some e \<Rightarrow> raise e | None \<Rightarrow> ret ())"

text \<open>
  \<^verbatim>\<open>is_app_alive\<close> (lines 108 to 118). The three statements of the \<^verbatim>\<open>try\<close> block are
  guarded by \<^verbatim>\<open>except WebDriverException\<close> only: any other exception leaves the function.
\<close>

definition is_app_alive :: "driver \<Rightarrow> pyval \<Rightarrow> pyval \<Rightarrow> bool comp" where
  "is_app_alive drv url expected_text =
     bind (emit (Call_is_app_alive url expected_text)) (\<lambda>_.
     bind
       (try_except
          (bind (driver_get drv url) (\<lambda>_.
           bind (driver_page_source drv url) (\<lambda>page_source.
           lift (py_in expected_text page_source))))
          (\<lambda>e. if is_WebDriverException e
                then bind (emit (Print (WebDriverErrorLine e))) (\<lambda>_. ret False)
                else raise e))
       (\<lambda>b. bind (emit (Ret_is_app_alive b)) (\<lambda>_. ret b)))"

text \<open>
  \<^verbatim>\<open>create_webdriver\<close> (lines 97 to 105). \<open>browser w k\<close> is what the \<open>k\<close>-th start of
  Chrome in a run gives: a driver, or the exception \<^verbatim>\<open>webdriver.Chrome\<close> raises. The loop of
  \<^verbatim>\<open>run_single_check\<close> starts Chrome once in each iteration, so its \<open>k\<close>-th iteration makes
  the \<open>k\<close>-th call.

  The line printed at line 188 ends with a check mark (U+2705), the only character of the
  program's text outside ASCII. \<^verbatim>\<open>print\<close> raises \<^verbatim>\<open>UnicodeEncodeError\<close> on it when the
  encoding of the standard output has no such character, and then writes nothing.
  \<open>check_mark w\<close> is the exception that \<^verbatim>\<open>print\<close> raises, or \<open>None\<close> when the line can be
  written. All other lines are ASCII text around formatted values, and their printing is
  taken to succeed.
\<close>

record smtp_server =
  srv_connect :: "exn option"
  srv_ehlo :: "exn option"
  srv_starttls :: "exn option"
  srv_login :: "exn option"
  srv_send_message :: "exn option"
  srv_exit :: "exn option"

record world =
  browser :: "int \<Rightarrow> exn + driver"
  check_mark :: "exn option"
  mail :: smtp_server

definition create_webdriver :: "world \<Rightarrow> int \<Rightarrow> driver comp" where
  "create_webdriver w k = bind (emit Call_create_webdriver) (\<lambda>_. lift (browser w k))"

section \<open>The alert email\<close>

text \<open>A call into \<^verbatim>\<open>smtplib\<close>: the event, then the exception the call raises, if any.\<close>

definition extern :: "event \<Rightarrow> exn option \<Rightarrow> unit comp" where
  "extern ev r = bind (emit ev) (\<lambda>_. case r of Some e \<Rightarrow> raise e | None \<Rightarrow> ret ())"

fun join :: "string \<Rightarrow> string list \<Rightarrow> string" where
  "join sep [] = []"
| "join sep [x] = x"
| "join sep (x # y # ys) = x @ sep @ join sep (y # ys)"

fun the_strs :: "pyval list \<Rightarrow> string list option" where
  "the_strs [] = Some []"
| "the_strs (PStr s # vs) = (case the_strs vs of None \<Rightarrow> None | Some ss \<Rightarrow> Some (s # ss))"
| "the_strs (_ # vs) = None"

text \<open>
  \<^verbatim>\<open>sep.join(v)\<close>: \<open>v\<close> must be iterable and yield strings only. A list yields its
  elements, a string its characters, a dictionary its keys.
\<close>

fun py_join :: "string \<Rightarrow> pyval \<Rightarrow> exn + string" where
  "py_join sep (PList vs) =
     (case the_strs vs of None \<Rightarrow> Inl TypeError | Some ss \<Rightarrow> Inr (join sep ss))"
| "py_join sep (PStr s) = Inr (join sep (map (\<lambda>c. [c]) s))"
| "py_join sep (PDict d) = Inr (join sep (map fst d))"
| "py_join sep _ = Inl TypeError"

text \<open>
  The \<^verbatim>\<open>with smtplib.SMTP(smtp_host, smtp_port) as server\<close> block (lines 150 to 154).
  When the constructor raises, the block is not entered. Once it is entered, the
  server's exit method runs however the block ends, and does not suppress an exception.
\<close>

definition smtp_session ::
  "smtp_server \<Rightarrow> pyval \<Rightarrow> pyval \<Rightarrow> pyval \<Rightarrow> pyval \<Rightarrow> message \<Rightarrow> unit comp" where
  "smtp_session srv smtp_host smtp_port smtp_username smtp_password msg =
     bind (extern (Smtp_connect smtp_host smtp_port) (srv_connect srv)) (\<lambda>_.
     try_finally
       (bind (extern Smtp_ehlo (srv_ehlo srv)) (\<lambda>_.
        bind (extern Smtp_starttls (srv_starttls srv)) (\<lambda>_.
        bind (extern (Smtp_login smtp_username smtp_password) (srv_login srv)) (\<lambda>_.
        extern (Smtp_send_message msg) (srv_send_message srv)))))
       (extern Smtp_exit (srv_exit srv)))"

text \<open>
  \<^verbatim>\<open>send_alert_email\<close> (lines 124 to 158). \<^verbatim>\<open>email_config.get\<close> exists on a dictionary
  only. The settings are read and the message is built (lines 130 to 147) before the
  \<^verbatim>\<open>try\<close> block, which holds the SMTP session and the line that reports success.
\<close>

definition send_alert_email :: "smtp_server \<Rightarrow> pyval \<Rightarrow> pyval \<Rightarrow> pyval \<Rightarrow> unit comp" where
  "send_alert_email srv email_config url expected_text =
     bind (emit (Call_send_alert_email email_config url expected_text)) (\<lambda>_.
     case email_config of
       PDict d \<Rightarrow>
         if \<not> truthy (dict_get d ''enabled'' (PBool False))
         then emit (Print EmailDisabledLine)
         else
           bind (lift (dict_item d ''smtp_host'')) (\<lambda>smtp_host.
           bind (lift (dict_item d ''smtp_port'')) (\<lambda>smtp_port.
           bind (lift (dict_item d ''smtp_username'')) (\<lambda>smtp_username.
           bind (lift (dict_item d ''smtp_password'')) (\<lambda>smtp_password.
           bind (lift (dict_item d ''from'')) (\<lambda>email_from.
           bind (lift (dict_item d ''to'')) (\<lambda>email_to.
           bind (ret (dict_get d ''subject'' (PStr ''Application is DOWN''))) (\<lambda>subject.
           bind (lift (py_join '', '' email_to)) (\<lambda>to_header.
           bind (ret \<lparr>header_from = email_from, header_to = to_header,
                      header_subject = subject, body_url = url,
                      body_expected_text = expected_text\<rparr>) (\<lambda>msg.
           try_except
             (bind (smtp_session srv smtp_host smtp_port smtp_username smtp_password msg)
                (\<lambda>_. emit (Print EmailSentLine)))
             (\<lambda>e. emit (Print (EmailFailedLine e))))))))))))
     | _ \<Rightarrow> raise AttributeError)"

section \<open>The one-shot check\<close>

text \<open>
  \<^verbatim>\<open>int(v)\<close> on a JSON value. A string is read in base ten: surrounding white space is
  dropped, a sign may come first, and single underscores may stand between digits. The
  white space dropped is the ASCII white space (tab, line feed, vertical tab, form feed,
  carriage return, space) and the characters outside ASCII that Unicode counts as
  spaces; the separators 28 to 31 are not dropped. A string with more than 4300 digits
  raises \<^verbatim>\<open>ValueError\<close>, the interpreter's default limit for this conversion.
\<close>

definition is_py_space :: "char \<Rightarrow> bool" where
  "is_py_space c = ((of_char c :: nat) \<in> set [9, 10, 11, 12, 13, 32, 133, 160])"

definition digit_val :: "char \<Rightarrow> nat option" where
  "digit_val c =
     (let n = (of_char c :: nat) in if 48 \<le> n \<and> n \<le> 57 then Some (n - 48) else None)"

fun parse_digits :: "string \<Rightarrow> nat \<Rightarrow> bool \<Rightarrow> nat option" where
  "parse_digits [] acc after_digit = (if after_digit then Some acc else None)"
| "parse_digits (c # cs) acc after_digit =
     (if c = CHR ''_'' then (if after_digit then parse_digits cs acc False else None)
      else (case digit_val c of
              None \<Rightarrow> None
            | Some d \<Rightarrow> parse_digits cs (10 * acc + d) True))"

definition strip :: "string \<Rightarrow> string" where
  "strip s = rev (dropWhile is_py_space (rev (dropWhile is_py_space s)))"

definition int_max_str_digits :: nat where
  "int_max_str_digits = 4300"

definition int_of_str :: "string \<Rightarrow> exn + int" where
  "int_of_str s =
     (case strip s of
        [] \<Rightarrow> Inl ValueError
      | c # cs \<Rightarrow>
          (let digits = (if c = CHR ''-'' \<or> c = CHR ''+'' then cs else c # cs) in
           if int_max_str_digits < length (filter (\<lambda>x. x \<noteq> CHR ''_'') digits)
           then Inl ValueError
           else (case parse_digits digits 0 False of
                   None \<Rightarrow> Inl ValueError
                 | Some n \<Rightarrow> Inr (if c = CHR ''-'' then - int n else int n))))"

fun py_int :: "pyval \<Rightarrow> exn + int" where
  "py_int (PInt n) = Inr n"
| "py_int (PBool b) = Inr (if b then 1 else 0)"
| "py_int (PStr s) = int_of_str s"
| "py_int _ = Inl TypeError"

text \<open>
  \<^verbatim>\<open>time.sleep(secs)\<close> for an integer. The argument is first converted to a signed 64-bit
  count of nanoseconds, which raises \<^verbatim>\<open>OverflowError\<close> when it does not fit: the largest
  number of seconds that fits is 9223372036. A negative argument that fits raises
  \<^verbatim>\<open>ValueError\<close>. \<open>sleep_error secs\<close> is the exception raised, or \<open>None\<close> when the call
  sleeps and returns.
\<close>

definition sleep_error :: "int \<Rightarrow> exn option" where
  "sleep_error secs =
     (if secs < - 9223372036 \<or> 9223372036 < secs then Some OverflowError
      else if secs < 0 then Some ValueError
      else None)"

definition time_sleep :: "int \<Rightarrow> unit comp" where
  "time_sleep secs =
     (case sleep_error secs of Some e \<Rightarrow> raise e | None \<Rightarrow> emit (Sleep secs))"

text \<open>
  One iteration's \<^verbatim>\<open>try\<close> statement (lines 181 to 200), for the attempt numbered
  \<open>attempts\<close>. The value is \<open>True\<close> when the \<^verbatim>\<open>return\<close> of line 189 was executed, \<open>False\<close>
  when control goes on after the statement.

  The variable \<^verbatim>\<open>driver\<close> is \<^verbatim>\<open>None\<close> until \<^verbatim>\<open>create_webdriver\<close> has returned, and the
  \<^verbatim>\<open>finally\<close> block calls \<^verbatim>\<open>driver.quit()\<close> only when it is not \<^verbatim>\<open>None\<close>. So when
  \<^verbatim>\<open>create_webdriver\<close> raises, the handler of line 193 prints and the \<^verbatim>\<open>finally\<close> block
  does nothing; otherwise the rest of the \<^verbatim>\<open>try\<close> block runs under the handler, and
  \<^verbatim>\<open>driver.quit()\<close> follows with its own exceptions discarded.

  The \<^verbatim>\<open>print\<close> of line 188 stands inside the \<^verbatim>\<open>try\<close> block, before the \<^verbatim>\<open>return\<close>: when
  it raises, the handler of line 193 takes over and the \<^verbatim>\<open>return\<close> is not reached.
\<close>

definition print_alive :: "world \<Rightarrow> unit comp" where
  "print_alive w = (case check_mark w of Some e \<Rightarrow> raise e | None \<Rightarrow> emit (Print AliveLine))"

definition attempt :: "world \<Rightarrow> pyval \<Rightarrow> pyval \<Rightarrow> int \<Rightarrow> int \<Rightarrow> bool comp" where
  "attempt w url expected_text max_attempts attempts =
     (case create_webdriver w attempts of
        (t, Inl e) \<Rightarrow>
          bind (t, Inr ()) (\<lambda>_.
          bind (emit (Print (UnexpectedErrorLine attempts e))) (\<lambda>_. ret False))
      | (t, Inr drv) \<Rightarrow>
          bind (t, Inr ()) (\<lambda>_.
          try_finally
            (try_except
               (bind (emit (Print (AttemptLine attempts max_attempts))) (\<lambda>_.
                bind (is_app_alive drv url expected_text) (\<lambda>alive.
                if alive then bind (print_alive w) (\<lambda>_. ret True)
                else bind (emit (Print NotAliveLine)) (\<lambda>_. ret False))))
               (\<lambda>e. bind (emit (Print (UnexpectedErrorLine attempts e))) (\<lambda>_. ret False)))
            (try_except (driver_quit drv) (\<lambda>_. ret ()))))"

text \<open>The wait after a failed attempt (lines 203 to 205).\<close>

definition pause :: "int \<Rightarrow> int \<Rightarrow> int \<Rightarrow> unit comp" where
  "pause retry_delay_seconds max_attempts attempts =
     (if attempts < max_attempts
      then bind (emit (Print (WaitingLine retry_delay_seconds))) (\<lambda>_.
           time_sleep retry_delay_seconds)
      else ret ())"

text \<open>
  The \<^verbatim>\<open>while\<close> loop (lines 179 to 205), entered with the counter at \<open>attempts\<close>. The
  value is \<open>True\<close> when the function returned from inside the loop, \<open>False\<close> when the
  loop condition failed.
\<close>

function check_loop :: "world \<Rightarrow> pyval \<Rightarrow> pyval \<Rightarrow> int \<Rightarrow> int \<Rightarrow> int \<Rightarrow> bool comp" where
  "check_loop w url expected_text retry_delay_seconds max_attempts attempts =
     (if attempts < max_attempts then
        bind (attempt w url expected_text max_attempts (attempts + 1)) (\<lambda>returned.
          if returned then ret True
          else bind (pause retry_delay_seconds max_attempts (attempts + 1)) (\<lambda>_.
                 check_loop w url expected_text retry_delay_seconds max_attempts
                   (attempts + 1)))
      else ret False)"
  by pat_completeness auto
termination
  by (relation "measure (\<lambda>(w, url, expected_text, retry_delay_seconds, max_attempts, attempts).
        nat (max_attempts - attempts))") auto

declare check_loop.simps [simp del]

text \<open>\<^verbatim>\<open>run_single_check\<close> (lines 164 to 209).\<close>

definition run_single_check :: "world \<Rightarrow> (string \<times> pyval) list \<Rightarrow> unit comp" where
  "run_single_check w config =
     bind (lift (dict_item config ''url'')) (\<lambda>url.
     bind (lift (dict_item config ''expected_text'')) (\<lambda>expected_text.
     bind (lift (py_int (dict_get config ''retry_delay_seconds'' (PInt 60)))) (\<lambda>retry_delay_seconds.
     bind (lift (py_int (dict_get config ''max_attempts'' (PInt 2)))) (\<lambda>max_attempts.
     bind (ret (dict_get config ''email'' (PDict []))) (\<lambda>email_config.
     bind (emit (Print StartingSingleCheck)) (\<lambda>_.
     bind (emit (Print (UrlLine url))) (\<lambda>_.
     bind (emit (Print (ExpectedTextLine expected_text))) (\<lambda>_.
     bind (emit (Print (RetryDelayLine retry_delay_seconds))) (\<lambda>_.
     bind (emit (Print (MaxAttemptsLine max_attempts))) (\<lambda>_.
     bind (check_loop w url expected_text retry_delay_seconds max_attempts 0) (\<lambda>returned.
     if returned then ret ()
     else bind (emit (Print StillDownLine)) (\<lambda>_.
          send_alert_email (mail w) email_config url expected_text))))))))))))"


section \<open>Reading a trace\<close>

fun is_create :: "event \<Rightarrow> bool" where
  "is_create Call_create_webdriver = True"
| "is_create _ = False"

fun is_check :: "event \<Rightarrow> bool" where
  "is_check (Call_is_app_alive _ _) = True"
| "is_check _ = False"

fun is_alive_return :: "event \<Rightarrow> bool" where
  "is_alive_return (Ret_is_app_alive b) = b"
| "is_alive_return _ = False"

fun is_alive_line :: "event \<Rightarrow> bool" where
  "is_alive_line (Print l) = (l = AliveLine)"
| "is_alive_line _ = False"

fun is_quit :: "event \<Rightarrow> bool" where
  "is_quit Driver_quit = True"
| "is_quit _ = False"

fun is_sleep :: "event \<Rightarrow> bool" where
  "is_sleep (Sleep _) = True"
| "is_sleep _ = False"

fun is_notify :: "event \<Rightarrow> bool" where
  "is_notify (Call_send_alert_email _ _ _) = True"
| "is_notify _ = False"

fun is_smtp :: "event \<Rightarrow> bool" where
  "is_smtp (Smtp_connect _ _) = True"
| "is_smtp Smtp_ehlo = True"
| "is_smtp Smtp_starttls = True"
| "is_smtp (Smtp_login _ _) = True"
| "is_smtp (Smtp_send_message _) = True"
| "is_smtp Smtp_exit = True"
| "is_smtp _ = False"

definition count_events :: "(event \<Rightarrow> bool) \<Rightarrow> event list \<Rightarrow> nat" where
  "count_events P t = length (filter P t)"




text \<open>
  In the attempt numbered \<open>k\<close> the check says "alive": Chrome starts and \<^verbatim>\<open>is_app_alive\<close>
  returns \<^verbatim>\<open>True\<close>.
\<close>

definition check_alive :: "world \<Rightarrow> pyval \<Rightarrow> pyval \<Rightarrow> int \<Rightarrow> bool" where
  "check_alive w url expected_text k =
     (case browser w k of
        Inl e \<Rightarrow> False
      | Inr drv \<Rightarrow> snd (is_app_alive drv url expected_text) = Inr True)"

text \<open>
  The attempt numbered \<open>k\<close> ends the run with success: the check says "alive" and the
  line that reports it can be printed, so that the \<^verbatim>\<open>return\<close> of line 189 is reached.
  In every other case the attempt is handled as not alive or as errored.
\<close>

definition attempt_alive :: "world \<Rightarrow> pyval \<Rightarrow> pyval \<Rightarrow> int \<Rightarrow> bool" where
  "attempt_alive w url expected_text k =
     (check_alive w url expected_text k \<and> check_mark w = None)"

text \<open>
  The pauses of a run are accepted: \<^verbatim>\<open>time.sleep\<close> takes the retry delay, or there is
  at most one attempt and so no pause at all.
\<close>

definition pauses_accepted :: "int \<Rightarrow> int \<Rightarrow> bool" where
  "pauses_accepted retry_delay_seconds max_attempts =
     (max_attempts \<le> 1 \<or> sleep_error retry_delay_seconds = None)"

text \<open>
  What lines 165 to 168 read from the configuration, when none of them raises.
\<close>

definition config_reads :: "(string \<times> pyval) list \<Rightarrow> pyval \<Rightarrow> pyval \<Rightarrow> int \<Rightarrow> int \<Rightarrow> bool" where
  "config_reads config url expected_text retry_delay_seconds max_attempts =
     (dict_item config ''url'' = Inr url
      \<and> dict_item config ''expected_text'' = Inr expected_text
      \<and> py_int (dict_get config ''retry_delay_seconds'' (PInt 60)) = Inr retry_delay_seconds
      \<and> py_int (dict_get config ''max_attempts'' (PInt 2)) = Inr max_attempts)"

section \<open>Sample inputs\<close>

text \<open>A mail server on which every call succeeds.\<close>

definition quiet_mail :: smtp_server where
  "quiet_mail = \<lparr>srv_connect = None, srv_ehlo = None, srv_starttls = None,
                   srv_login = None, srv_send_message = None, srv_exit = None\<rparr>"




text \<open>A world in which Chrome never starts.\<close>

definition no_chrome_world :: world where
  "no_chrome_world =
     \<lparr>browser = (\<lambda>_. Inl (WebDriverException ''chrome not found'')), check_mark = None,
      mail = quiet_mail\<rparr>"






text \<open>A configuration with the four core settings and the given further entries.\<close>

definition sample_config :: "int \<Rightarrow> int \<Rightarrow> (string \<times> pyval) list \<Rightarrow> (string \<times> pyval) list" where
  "sample_config retry_delay_seconds max_attempts further =
     [(''url'', PStr ''http://x''), (''expected_text'', PStr ''alive''),
      (''retry_delay_seconds'', PInt retry_delay_seconds),
      (''max_attempts'', PInt max_attempts)] @ further"

section \<open>Properties\<close>

lemma starts_with_iff: "starts_with s p = (\<exists>post. s = p @ post)"
  by (induction s p rule: starts_with.induct) auto

lemma str_contains_iff: "str_contains page sub = (\<exists>pre post. page = pre @ sub @ post)"
proof (induction page)
  case Nil
  then show ?case by auto
next
  case (Cons c cs)
  have "(\<exists>pre post. c # cs = pre @ sub @ post) =
        ((\<exists>post. c # cs = sub @ post) \<or> (\<exists>pre post. cs = pre @ sub @ post))"
  proof
    assume "\<exists>pre post. c # cs = pre @ sub @ post"
    then obtain pre post where h: "c # cs = pre @ sub @ post" by blast
    show "(\<exists>post. c # cs = sub @ post) \<or> (\<exists>pre post. cs = pre @ sub @ post)"
    proof (cases pre)
      case Nil
      with h show ?thesis by auto
    next
      case (Cons a pre')
      with h have "cs = pre' @ sub @ post" by simp
      then show ?thesis by blast
    qed
  next
    assume "(\<exists>post. c # cs = sub @ post) \<or> (\<exists>pre post. cs = pre @ sub @ post)"
    then show "\<exists>pre post. c # cs = pre @ sub @ post"
    proof
      assume "\<exists>post. c # cs = sub @ post"
      then obtain post where "c # cs = [] @ sub @ post" by auto
      then show ?thesis by blast
    next
      assume "\<exists>pre post. cs = pre @ sub @ post"
      then obtain pre post where "c # cs = (c # pre) @ sub @ post" by auto
      then show ?thesis by blast
    qed
  qed
  with Cons show ?case by (simp add: starts_with_iff)
qed

text \<open>
  C3. When \<^verbatim>\<open>driver.get(url)\<close> and \<^verbatim>\<open>driver.page_source\<close> succeed, \<^verbatim>\<open>is_app_alive\<close>
  returns (it does not raise), and the value it returns is \<^verbatim>\<open>True\<close> exactly when
  the expected text occurs in the page source as a contiguous run of the same
  characters: the page is some prefix, then the expected text unchanged, then some
  suffix.
\<close>

theorem is_app_alive_exact_substring:
  assumes "drv_get drv url = None"
    and "drv_page_source drv url = Inr page"
  shows "snd (is_app_alive drv url (PStr expected_text)) =
           Inr (\<exists>pre post. page = pre @ expected_text @ post)"
  using assms
  by (simp add: is_app_alive_def driver_get_def driver_page_source_def bind_def
      try_except_def emit_def ret_def lift_def str_contains_iff)

theorem is_app_alive_exact_substring_witness:
  "drv_get \<lparr>drv_get = (\<lambda>_. None), drv_page_source = (\<lambda>_. Inr ''<p>alive</p>''), drv_quit = None\<rparr>
     (PStr ''http://x'') = None
   \<and> drv_page_source \<lparr>drv_get = (\<lambda>_. None), drv_page_source = (\<lambda>_. Inr ''<p>alive</p>''), drv_quit = None\<rparr>
     (PStr ''http://x'') = Inr ''<p>alive</p>''
   \<and> snd (is_app_alive \<lparr>drv_get = (\<lambda>_. None), drv_page_source = (\<lambda>_. Inr ''<p>alive</p>''), drv_quit = None\<rparr>
          (PStr ''http://x'') (PStr ''alive'')) = Inr True
   \<and> snd (is_app_alive \<lparr>drv_get = (\<lambda>_. None), drv_page_source = (\<lambda>_. Inr ''<p>alive</p>''), drv_quit = None\<rparr>
          (PStr ''http://x'') (PStr ''Alive'')) = Inr False"
proof -
  let ?D = "\<lparr>drv_get = (\<lambda>_. None), drv_page_source = (\<lambda>_. Inr ''<p>alive</p>''), drv_quit = None\<rparr>"
  have g: "drv_get ?D (PStr ''http://x'') = None" by simp
  have p: "drv_page_source ?D (PStr ''http://x'') = Inr ''<p>alive</p>''" by simp
  have yes: "\<exists>pre post. ''<p>alive</p>'' = pre @ ''alive'' @ post"
    unfolding str_contains_iff [symmetric] by simp
  have no: "\<not> (\<exists>pre post. ''<p>alive</p>'' = pre @ ''Alive'' @ post)"
    unfolding str_contains_iff [symmetric] by simp
  from is_app_alive_exact_substring [OF g p, of "''alive''"] yes
  have a: "snd (is_app_alive ?D (PStr ''http://x'') (PStr ''alive'')) = Inr True" by simp
  from is_app_alive_exact_substring [OF g p, of "''Alive''"] no
  have b: "snd (is_app_alive ?D (PStr ''http://x'') (PStr ''Alive'')) = Inr False" by simp
  from g p a b show ?thesis by blast
qed

section \<open>Traces and results of the combinators\<close>

lemma fst_bind: "fst (bind m f) = fst m @ (case snd m of Inl e \<Rightarrow> [] | Inr x \<Rightarrow> fst (f x))"
  by (simp add: bind_def split: prod.splits sum.splits)

lemma snd_bind: "snd (bind m f) = (case snd m of Inl e \<Rightarrow> Inl e | Inr x \<Rightarrow> snd (f x))"
  by (simp add: bind_def split: prod.splits sum.splits)

lemma fst_try_except:
  "fst (try_except m h) = fst m @ (case snd m of Inl e \<Rightarrow> fst (h e) | Inr x \<Rightarrow> [])"
  by (simp add: try_except_def split: prod.splits sum.splits)

lemma snd_try_except:
  "snd (try_except m h) = (case snd m of Inl e \<Rightarrow> snd (h e) | Inr x \<Rightarrow> Inr x)"
  by (simp add: try_except_def split: prod.splits sum.splits)

lemma fst_try_finally: "fst (try_finally m fin) = fst m @ fst fin"
  by (simp add: try_finally_def split: prod.splits sum.splits)

lemma snd_try_finally:
  "snd (try_finally m fin) = (case snd fin of Inl e \<Rightarrow> Inl e | Inr u \<Rightarrow> snd m)"
  by (simp add: try_finally_def split: prod.splits sum.splits)

lemma fst_snd_basic:
  "fst (ret x) = []" "snd (ret x) = Inr x"
  "fst (raise e) = []" "snd (raise e) = Inl e"
  "fst (emit ev) = [ev]" "snd (emit ev) = Inr ()"
  "fst (lift r) = []" "snd (lift r) = r"
  by (simp_all add: ret_def raise_def emit_def lift_def)

lemmas comp_simps = fst_bind snd_bind fst_try_except snd_try_except fst_try_finally
  snd_try_finally fst_snd_basic

section \<open>The trace of one attempt\<close>

lemmas is_app_alive_defs = is_app_alive_def driver_get_def driver_page_source_def

lemma is_app_alive_filters:
  "filter is_create (fst (is_app_alive drv url ex)) = []"
  "filter is_sleep (fst (is_app_alive drv url ex)) = []"
  "filter is_notify (fst (is_app_alive drv url ex)) = []"
  "filter is_smtp (fst (is_app_alive drv url ex)) = []"
  "filter is_quit (fst (is_app_alive drv url ex)) = []"
  "filter is_check (fst (is_app_alive drv url ex)) = [Call_is_app_alive url ex]"
  "filter is_alive_line (fst (is_app_alive drv url ex)) = []"
  by (auto simp: is_app_alive_defs comp_simps split: option.splits sum.splits)




lemma count_events_simps:
  "count_events P [] = 0"
  "count_events P (e # es) = (if P e then Suc (count_events P es) else count_events P es)"
  "count_events P (xs @ ys) = count_events P xs + count_events P ys"
  by (simp_all add: count_events_def)



lemma create_webdriver_eq: "create_webdriver w k = ([Call_create_webdriver], browser w k)"
  by (simp add: create_webdriver_def bind_def emit_def lift_def)

lemma attempt_not_created:
  assumes "browser w k = Inl e"
  shows "attempt w url ex mx k =
           ([Call_create_webdriver, Print (UnexpectedErrorLine k e)], Inr False)"
  using assms
  by (simp add: attempt_def create_webdriver_eq bind_def emit_def ret_def)

text \<open>
  An attempt with a driver: the call, the line that announces the attempt, the trace of
  \<^verbatim>\<open>is_app_alive\<close>, one line for the outcome, and \<^verbatim>\<open>quit\<close>.
\<close>

lemma attempt_created:
  assumes "browser w k = Inr drv"
  shows "attempt w url ex mx k =
           (Call_create_webdriver # Print (AttemptLine k mx) # fst (is_app_alive drv url ex)
              @ [Print (case snd (is_app_alive drv url ex) of
                          Inl e \<Rightarrow> UnexpectedErrorLine k e
                        | Inr b \<Rightarrow>
                            if b then (case check_mark w of
                                         None \<Rightarrow> AliveLine
                                       | Some e \<Rightarrow> UnexpectedErrorLine k e)
                            else NotAliveLine),
                 Driver_quit],
            Inr (snd (is_app_alive drv url ex) = Inr True \<and> check_mark w = None))"
  using assms
  by (auto simp: attempt_def create_webdriver_eq driver_quit_def print_alive_def comp_simps
      prod_eq_iff split: sum.splits option.splits)

lemma snd_attempt: "snd (attempt w url ex mx k) = Inr (attempt_alive w url ex k)"
  by (cases "browser w k")
    (simp_all add: attempt_not_created attempt_created attempt_alive_def check_alive_def)

lemma attempt_filters:
  "filter is_create (fst (attempt w url ex mx k)) = [Call_create_webdriver]"
  "filter is_sleep (fst (attempt w url ex mx k)) = []"
  "filter is_notify (fst (attempt w url ex mx k)) = []"
  "filter is_smtp (fst (attempt w url ex mx k)) = []"
  by (cases "browser w k"; simp add: attempt_not_created attempt_created is_app_alive_filters
      split: sum.splits)+








lemma attempt_creates: "count_events is_create (fst (attempt w url ex mx k)) = 1"
  by (simp add: count_events_def attempt_filters)


section \<open>The loop\<close>

lemma pause_eq:
  "pause d mx a =
     (if a < mx
      then (case sleep_error d of
              Some e \<Rightarrow> ([Print (WaitingLine d)], Inl e)
            | None \<Rightarrow> ([Print (WaitingLine d), Sleep d], Inr ()))
      else ([], Inr ()))"
  by (simp add: pause_def time_sleep_def bind_def emit_def raise_def ret_def
      split: option.splits)

lemma check_loop_done:
  "\<not> a < mx \<Longrightarrow> check_loop w url ex d mx a = ([], Inr False)"
  by (subst check_loop.simps) (simp add: ret_def)

lemma fst_check_loop_step:
  "a < mx \<Longrightarrow> fst (check_loop w url ex d mx a) =
     fst (attempt w url ex mx (a + 1)) @
     (if attempt_alive w url ex (a + 1) then []
      else fst (pause d mx (a + 1)) @
           (case snd (pause d mx (a + 1)) of
              Inl e \<Rightarrow> []
            | Inr u \<Rightarrow> fst (check_loop w url ex d mx (a + 1))))"
  by (subst check_loop.simps) (simp add: comp_simps snd_attempt)

lemma snd_check_loop_step:
  "a < mx \<Longrightarrow> snd (check_loop w url ex d mx a) =
     (if attempt_alive w url ex (a + 1) then Inr True
      else (case snd (pause d mx (a + 1)) of
              Inl e \<Rightarrow> Inl e
            | Inr u \<Rightarrow> snd (check_loop w url ex d mx (a + 1))))"
  by (subst check_loop.simps) (simp add: comp_simps snd_attempt)

lemma counter_induct [case_names step]:
  fixes a mx :: int
  assumes step: "\<And>a. (a < mx \<Longrightarrow> P (a + 1)) \<Longrightarrow> P a"
  shows "P a"
proof (induction "nat (mx - a)" arbitrary: a)
  case 0
  then have finished: "\<not> a < mx" by simp
  show ?case
  proof (rule step)
    assume "a < mx"
    with finished show "P (a + 1)" by simp
  qed
next
  case (Suc n)
  show ?case
  proof (rule step)
    assume "a < mx"
    with Suc.hyps(2) have "n = nat (mx - (a + 1))" by simp
    then show "P (a + 1)" by (rule Suc.hyps(1))
  qed
qed

lemma alive_range_step:
  assumes "\<not> attempt_alive w url ex (a + 1)"
  shows "(\<exists>k. a + 1 < k \<and> k \<le> mx \<and> attempt_alive w url ex k) =
         (\<exists>k. a < k \<and> k \<le> mx \<and> attempt_alive w url ex k)"
proof
  assume "\<exists>k. a + 1 < k \<and> k \<le> mx \<and> attempt_alive w url ex k"
  then show "\<exists>k. a < k \<and> k \<le> mx \<and> attempt_alive w url ex k" by force
next
  assume "\<exists>k. a < k \<and> k \<le> mx \<and> attempt_alive w url ex k"
  then obtain k where k: "a < k" "k \<le> mx" "attempt_alive w url ex k" by blast
  with assms have "k \<noteq> a + 1" by auto
  with k have "a + 1 < k" by simp
  with k show "\<exists>k. a + 1 < k \<and> k \<le> mx \<and> attempt_alive w url ex k" by blast
qed

text \<open>
  The pause after the attempt numbered \<open>a + 1\<close> returns when \<^verbatim>\<open>time.sleep\<close> takes the
  delay, and also when that attempt is the last one.
\<close>

lemma pause_accepted:
  assumes "sleep_error d = None \<or> mx \<le> a + 1"
  shows "snd (pause d mx (a + 1)) = Inr ()"
  using assms by (auto simp: pause_eq)

lemma snd_check_loop:
  assumes "sleep_error d = None \<or> mx \<le> a + 1"
  shows "snd (check_loop w url ex d mx a) =
     Inr (\<exists>k. a < k \<and> k \<le> mx \<and> attempt_alive w url ex k)"
  using assms
proof (induction a rule: counter_induct [where mx = mx])
  case (step a)
  show ?case
  proof (cases "a < mx")
    case False
    then show ?thesis by (auto simp: check_loop_done)
  next
    case True
    show ?thesis
    proof (cases "attempt_alive w url ex (a + 1)")
      case alive: True
      with True have "\<exists>k. a < k \<and> k \<le> mx \<and> attempt_alive w url ex k"
        by (intro exI [of _ "a + 1"]) simp
      with True alive show ?thesis by (simp add: snd_check_loop_step)
    next
      case dead: False
      from step.prems have next_ok: "sleep_error d = None \<or> mx \<le> a + 1 + 1" by auto
      have "snd (check_loop w url ex d mx (a + 1)) =
              Inr (\<exists>k. a + 1 < k \<and> k \<le> mx \<and> attempt_alive w url ex k)"
        using True next_ok by (rule step.IH)
      then have "snd (check_loop w url ex d mx (a + 1)) =
              Inr (\<exists>k. a < k \<and> k \<le> mx \<and> attempt_alive w url ex k)"
        by (simp only: alive_range_step [OF dead])
      with True dead show ?thesis
        by (simp add: snd_check_loop_step pause_accepted [OF step.prems])
    qed
  qed
qed

lemma snd_check_loop_rejected:
  assumes "sleep_error d = Some e" and "a < mx"
  shows "snd (check_loop w url ex d mx a) =
     (if attempt_alive w url ex (a + 1) then Inr True
      else if a + 1 < mx then Inl e else Inr False)"
  using assms by (simp add: snd_check_loop_step pause_eq check_loop_done)

lemma check_loop_filter_empty:
  assumes att: "\<And>k. filter P (fst (attempt w url ex mx k)) = []"
    and pr: "\<And>l. \<not> P (Print l)"
    and sl: "\<And>s. \<not> P (Sleep s)"
  shows "filter P (fst (check_loop w url ex d mx a)) = []"
proof (induction a rule: counter_induct [where mx = mx])
  case (step a)
  show ?case
  proof (cases "a < mx")
    case False
    then show ?thesis by (simp add: check_loop_done)
  next
    case True
    then have ih: "filter P (fst (check_loop w url ex d mx (a + 1))) = []"
      by (rule step)
    show ?thesis
      unfolding fst_check_loop_step [OF True]
      by (simp add: att pr sl pause_eq ih split: option.splits)
  qed
qed









lemma check_loop_creates_exhausted:
  assumes "snd (check_loop w url ex d mx a) = Inr False"
  shows "count_events is_create (fst (check_loop w url ex d mx a)) = nat (mx - a)"
  using assms
proof (induction a rule: counter_induct [where mx = mx])
  case (step a)
  show ?case
  proof (cases "a < mx")
    case False
    then show ?thesis by (simp add: check_loop_done count_events_simps)
  next
    case True
    from step.prems True have dead: "\<not> attempt_alive w url ex (a + 1)"
      by (auto simp: snd_check_loop_step)
    from step.prems True dead have paused: "snd (pause d mx (a + 1)) = Inr ()"
      by (auto simp: snd_check_loop_step split: sum.splits)
    from step.prems True dead paused
    have "snd (check_loop w url ex d mx (a + 1)) = Inr False"
      by (simp add: snd_check_loop_step)
    with True have ih: "count_events is_create (fst (check_loop w url ex d mx (a + 1)))
        = nat (mx - (a + 1))"
      by (rule step.IH)
    have pause_creates: "count_events is_create (fst (pause d mx (a + 1))) = 0"
      by (simp add: pause_eq count_events_simps split: option.splits)
    show ?thesis
      unfolding fst_check_loop_step [OF True]
      using True dead ih paused pause_creates
      by (simp add: count_events_simps attempt_creates nat_diff_distrib)
  qed
qed


section \<open>The trace of the alert\<close>

lemma smtp_session_events:
  "filter (\<lambda>e. \<not> is_smtp e) (fst (smtp_session srv h p u pw m)) = []"
  by (auto simp: smtp_session_def extern_def comp_simps split: option.splits sum.splits)




lemma filter_through:
  assumes "\<And>e. P e \<Longrightarrow> R e"
  shows "filter P xs = filter P (filter R xs)"
  using assms by (induction xs) auto


lemma smtp_session_others:
  "filter (\<lambda>e. \<not> is_smtp e \<and> (\<forall>l. e \<noteq> Print l)) (fst (smtp_session srv h p u pw m)) = []"
  using smtp_session_events [of srv h p u pw m] by (simp add: filter_empty_conv)


lemma send_alert_email_others:
  "filter (\<lambda>e. \<not> is_smtp e \<and> (\<forall>l. e \<noteq> Print l)) (fst (send_alert_email srv ec url ex)) =
     [Call_send_alert_email ec url ex]"
proof (cases ec)
  case (PDict d)
  show ?thesis
    unfolding PDict send_alert_email_def
    by (simp add: comp_simps smtp_session_others split: sum.splits)
qed (simp_all add: send_alert_email_def comp_simps)


lemma send_alert_email_filters:
  "filter is_notify (fst (send_alert_email srv ec url ex)) = [Call_send_alert_email ec url ex]"
  "filter is_create (fst (send_alert_email srv ec url ex)) = []"
  "filter is_check (fst (send_alert_email srv ec url ex)) = []"
  "filter is_alive_return (fst (send_alert_email srv ec url ex)) = []"
  "filter is_quit (fst (send_alert_email srv ec url ex)) = []"
  "filter is_sleep (fst (send_alert_email srv ec url ex)) = []"
proof -
  let ?R = "\<lambda>e. \<not> is_smtp e \<and> (\<forall>l. e \<noteq> Print l)"
  let ?t = "fst (send_alert_email srv ec url ex)"
  have r: "filter P ?t = filter P [Call_send_alert_email ec url ex]"
    if "\<And>e. P e \<Longrightarrow> ?R e" for P
    using filter_through [of P ?R ?t, OF that] by (simp only: send_alert_email_others)
  have imp: "is_notify e \<Longrightarrow> ?R e" "is_create e \<Longrightarrow> ?R e" "is_check e \<Longrightarrow> ?R e"
    "is_alive_return e \<Longrightarrow> ?R e" "is_quit e \<Longrightarrow> ?R e" "is_sleep e \<Longrightarrow> ?R e" for e
    by (cases e; simp)+
  show "filter is_notify ?t = [Call_send_alert_email ec url ex]"
    using r [of is_notify] imp(1) by simp
  show "filter is_create ?t = []" using r [of is_create] imp(2) by simp
  show "filter is_check ?t = []" using r [of is_check] imp(3) by simp
  show "filter is_alive_return ?t = []" using r [of is_alive_return] imp(4) by simp
  show "filter is_quit ?t = []" using r [of is_quit] imp(5) by simp
  show "filter is_sleep ?t = []" using r [of is_sleep] imp(6) by simp
qed


section \<open>The whole run\<close>

lemma run_single_check_fst:
  assumes "config_reads config url ex d mx"
  shows "fst (run_single_check w config) =
     [Print StartingSingleCheck, Print (UrlLine url), Print (ExpectedTextLine ex),
      Print (RetryDelayLine d), Print (MaxAttemptsLine mx)]
     @ fst (check_loop w url ex d mx 0)
     @ (if snd (check_loop w url ex d mx 0) = Inr False
        then Print StillDownLine
               # fst (send_alert_email (mail w) (dict_get config ''email'' (PDict [])) url ex)
        else [])"
  using assms
  by (auto simp: run_single_check_def config_reads_def comp_simps split: sum.splits)


lemma alive_in_range:
  "(\<exists>k. 0 < k \<and> k \<le> mx \<and> attempt_alive w url ex k) =
   (\<exists>k\<in>{1..mx}. attempt_alive w url ex k)"
  by force

text \<open>
  How the loop ends. When the pauses are accepted it returns from the first attempt that
  is alive, or falls through after the last attempt. When \<^verbatim>\<open>time.sleep\<close> raises \<open>e\<close> and
  there is more than one attempt, it returns from the first attempt or raises \<open>e\<close> after
  it.
\<close>

lemma loop_result:
  "snd (check_loop w url ex d mx 0) =
     (case sleep_error d of
        None \<Rightarrow> Inr (\<exists>k\<in>{1..mx}. attempt_alive w url ex k)
      | Some e \<Rightarrow>
          if 1 < mx then (if attempt_alive w url ex 1 then Inr True else Inl e)
          else Inr (\<exists>k\<in>{1..mx}. attempt_alive w url ex k))"
proof (cases "sleep_error d = None \<or> mx \<le> 1")
  case True
  then have "sleep_error d = None \<or> mx \<le> 0 + 1" by simp
  then have "snd (check_loop w url ex d mx 0) =
      Inr (\<exists>k. 0 < k \<and> k \<le> mx \<and> attempt_alive w url ex k)"
    by (rule snd_check_loop)
  then have "snd (check_loop w url ex d mx 0) = Inr (\<exists>k\<in>{1..mx}. attempt_alive w url ex k)"
    by (simp only: alive_in_range)
  with True show ?thesis
    by (auto split: option.splits)
next
  case False
  then obtain e where e: "sleep_error d = Some e" and more: "1 < mx" by auto
  from more have "(0::int) < mx" by simp
  with e have "snd (check_loop w url ex d mx 0) =
     (if attempt_alive w url ex (0 + 1) then Inr True
      else if 0 + 1 < mx then Inl e else Inr False)"
    by (rule snd_check_loop_rejected)
  with e more show ?thesis by simp
qed

lemma loop_exhausted:
  "(snd (check_loop w url ex d mx 0) = Inr False) =
     ((\<forall>k\<in>{1..mx}. \<not> attempt_alive w url ex k) \<and> pauses_accepted d mx)"
  by (auto simp: loop_result pauses_accepted_def split: option.splits)






lemma run_single_check_creates:
  assumes "config_reads config url ex d mx"
  shows "count_events is_create (fst (run_single_check w config)) =
           count_events is_create (fst (check_loop w url ex d mx 0))"
  by (simp add: run_single_check_fst [OF assms] count_events_def send_alert_email_filters)



lemma run_single_check_creates_exhausted:
  assumes "config_reads config url ex d mx"
    and "\<forall>k\<in>{1..mx}. \<not> attempt_alive w url ex k" and "pauses_accepted d mx"
  shows "count_events is_create (fst (run_single_check w config)) = nat mx"
proof -
  from assms(2,3) have "snd (check_loop w url ex d mx 0) = Inr False"
    by (simp only: loop_exhausted)
  then have "count_events is_create (fst (check_loop w url ex d mx 0)) = nat (mx - 0)"
    by (rule check_loop_creates_exhausted)
  then show ?thesis
    by (simp add: run_single_check_creates [OF assms(1)])
qed



section \<open>The sample inputs\<close>

lemma sample_config_reads:
  "config_reads (sample_config d mx further) (PStr ''http://x'') (PStr ''alive'') d mx"
  by (simp add: config_reads_def sample_config_def dict_item_def dict_get_def)






lemma pauses_accepted_sample: "pauses_accepted 5 mx" "sleep_error 5 = None"
  "sleep_error 9223372037 = Some OverflowError" "\<not> pauses_accepted 9223372037 2"
  by (simp_all add: pauses_accepted_def sleep_error_def)




section \<open>The claims about one attempt and about the alert\<close>

text \<open>
  C5, as the code has it. \<^verbatim>\<open>driver.quit\<close> is guarded by \<^verbatim>\<open>driver is not None\<close>: an attempt
  calls it exactly once when \<^verbatim>\<open>create_webdriver\<close> returned a driver, whatever happened
  afterwards (alive, not alive, an error of \<^verbatim>\<open>get\<close> or \<^verbatim>\<open>page_source\<close>, a failing
  \<^verbatim>\<open>quit\<close>), and not at all when \<^verbatim>\<open>create_webdriver\<close> raised.
\<close>

theorem quit_once_per_created_driver:
  "count_events is_quit (fst (attempt w url expected_text max_attempts k)) =
     (case browser w k of Inl e \<Rightarrow> 0 | Inr drv \<Rightarrow> 1)"
  by (cases "browser w k")
    (simp_all add: count_events_def attempt_not_created attempt_created is_app_alive_filters
      split: sum.splits)

text \<open>
  C5 as stated fails: when Chrome does not start, the attempt is executed (it is counted
  and reported as an unexpected error) and \<^verbatim>\<open>quit\<close> is never called.
\<close>

theorem quit_not_called_when_chrome_fails:
  "count_events is_create
     (fst (run_single_check no_chrome_world (sample_config 5 2 []))) = 2
   \<and> count_events is_quit
     (fst (run_single_check no_chrome_world (sample_config 5 2 []))) = 0
   \<and> fst (attempt no_chrome_world (PStr ''http://x'') (PStr ''alive'') 2 1) =
       [Call_create_webdriver,
        Print (UnexpectedErrorLine 1 (WebDriverException ''chrome not found''))]"
proof -
  have r: "config_reads (sample_config 5 2 []) (PStr ''http://x'') (PStr ''alive'') 5 2"
    by (rule sample_config_reads)
  have b: "\<And>k. browser no_chrome_world k = Inl (WebDriverException ''chrome not found'')"
    by (simp add: no_chrome_world_def)
  have dead: "\<forall>k\<in>{1..2}.
      \<not> attempt_alive no_chrome_world (PStr ''http://x'') (PStr ''alive'') k"
    by (simp add: attempt_alive_def check_alive_def b)
  have quits: "filter is_quit
      (fst (check_loop no_chrome_world (PStr ''http://x'') (PStr ''alive'') 5 2 0)) = []"
    by (rule check_loop_filter_empty) (simp_all add: attempt_not_created [OF b])
  have creates: "count_events is_create
      (fst (run_single_check no_chrome_world (sample_config 5 2 []))) = 2"
    using run_single_check_creates_exhausted [OF r dead pauses_accepted_sample(1)] by simp
  show ?thesis
    using quits creates
    by (simp add: run_single_check_fst [OF r] count_events_def attempt_not_created [OF b]
        send_alert_email_filters)
qed




section \<open>The claims about the run\<close>





















end
